theory Spec2Isabelle
  imports Main "HOL-Library.Sublist"
begin

section \<open>The news service of Mini-news (src/services/newsService.js)\<close>

text \<open>
  A shallow embedding of the class \<open>NewsService\<close>. JavaScript strings are modelled as
  \<^typ>\<open>string\<close>: a character is read as one code unit below 256 (ASCII and the Latin-1
  supplement), where \<open>toLowerCase\<close>, \<open>trim\<close> and the regular expression class \<open>\w\<close>
  are given exactly. Numbers that hold counts or scores are \<^typ>\<open>int\<close>; instants are
  milliseconds since the epoch, as \<open>moment().valueOf()\<close> reads them.
\<close>

subsection \<open>String primitives\<close>

text \<open>\<open>s.includes(t)\<close>: \<open>t\<close> occurs in \<open>s\<close> as a contiguous run of characters.\<close>

fun str_includes :: "string \<Rightarrow> string \<Rightarrow> bool" where
  "str_includes [] t = (t = [])"
| "str_includes (c # cs) t = (prefix t (c # cs) \<or> str_includes cs t)"

text \<open>\<open>s.toLowerCase()\<close> on code units below 256: A-Z and the capital letters
  U+00C0..U+00DE (without the multiplication sign U+00D7) move up by 32.\<close>

definition lowerChar :: "char \<Rightarrow> char" where
  "lowerChar c =
     (let n = (of_char c :: nat)
      in if (65 \<le> n \<and> n \<le> 90) \<or> (192 \<le> n \<and> n \<le> 222 \<and> n \<noteq> 215)
         then char_of (n + 32) else c)"

definition toLowerCase :: "string \<Rightarrow> string" where
  "toLowerCase s = map lowerChar s"

subsection \<open>Articles as the upstream API returns them\<close>

text \<open>
  \<open>publishedAt\<close> is handed to \<open>moment(...)\<close>: an absent field (\<open>undefined\<close>) makes
  \<open>moment(undefined)\<close> the current instant, \<open>null\<close> or an unparsable value makes an
  invalid moment, whose \<open>diff\<close> is \<open>NaN\<close>, and anything else is an instant.
\<close>

datatype pubdate = NoDate | BadDate | DateAt int

record source =
  name :: "string option"
  source_link :: "string option"

record raw_article =
  title :: "string option"
  description :: "string option"
  url :: "string option"
  urlToImage :: "string option"
  publishedAt :: pubdate
  source :: "source option"

text \<open>\<open>x || d\<close> on an optional string: \<open>undefined\<close>, \<open>null\<close> and the empty string are
  falsy.\<close>

definition orElse :: "string option \<Rightarrow> string \<Rightarrow> string" where
  "orElse x d = (case x of None \<Rightarrow> d | Some s \<Rightarrow> if s = [] then d else s)"

text \<open>\<open>article.source?.name\<close> and \<open>article.source?.url\<close>.\<close>

definition source_name_of :: "raw_article \<Rightarrow> string option" where
  "source_name_of a = (case source a of None \<Rightarrow> None | Some s \<Rightarrow> name s)"

definition source_url_of :: "raw_article \<Rightarrow> string option" where
  "source_url_of a = (case source a of None \<Rightarrow> None | Some s \<Rightarrow> source_link s)"

subsection \<open>calculateRelevanceScore\<close>

text \<open>
  \<open>moment().diff(publishedAt, 'hours')\<close>: the difference in milliseconds divided by
  3600000 and truncated towards zero; \<open>None\<close> stands for \<open>NaN\<close>, for which both
  comparisons of the source are false.
\<close>

definition truncDiv :: "int \<Rightarrow> int \<Rightarrow> int" where
  "truncDiv a b = (if a < 0 then - ((- a) div b) else a div b)"

definition hoursAgo :: "int \<Rightarrow> pubdate \<Rightarrow> int option" where
  "hoursAgo now p =
     (case p of
        NoDate \<Rightarrow> Some (truncDiv (now - now) 3600000)
      | BadDate \<Rightarrow> None
      | DateAt t \<Rightarrow> Some (truncDiv (now - t) 3600000))"

definition trustedSources :: "string list" where
  "trustedSources = [''Reuters'', ''Bloomberg'', ''Wall Street Journal'', ''Financial Times'']"

definition calculateRelevanceScore :: "int \<Rightarrow> raw_article \<Rightarrow> string \<Rightarrow> int" where
  "calculateRelevanceScore now article keyword =
     (let score = 0;
          title' = toLowerCase (orElse (title article) []);
          description' = toLowerCase (orElse (description article) []);
          searchTerm = toLowerCase keyword;
          score = (if str_includes title' searchTerm then score + 3 else score);
          score = (if str_includes description' searchTerm then score + 2 else score);
          score = (case hoursAgo now (publishedAt article) of
                     None \<Rightarrow> score
                   | Some h \<Rightarrow> if h < 6 then score + 2 else if h < 24 then score + 1 else score);
          score = (if list_ex (\<lambda>src. str_includes (orElse (source_name_of article) []) src)
                        trustedSources
                   then score + 2 else score)
      in min score 10)"

subsection \<open>sanitizeText\<close>

text \<open>
  \<open>text.replace(/<[^>]*>/g, '')\<close>: the scan goes from left to right; at a \<open><\<close> that has
  a \<open>>\<close> somewhere after it the match runs to the first such \<open>>\<close> (the class \<open>[^>]\<close>
  takes every other character, line breaks too), the match is dropped and the scan goes on
  behind it; any other character is kept. \<open>matchTag s\<close> is the rest of \<open>s\<close> behind a
  match that starts at the head of \<open>s\<close>.
\<close>

fun afterFirst :: "char \<Rightarrow> string \<Rightarrow> string option" where
  "afterFirst d [] = None"
| "afterFirst d (c # cs) = (if c = d then Some cs else afterFirst d cs)"

fun matchTag :: "string \<Rightarrow> string option" where
  "matchTag [] = None"
| "matchTag (c # cs) = (if c = CHR ''<'' then afterFirst (CHR ''>'') cs else None)"

lemma afterFirst_shorter: "afterFirst d s = Some r \<Longrightarrow> length r < length s"
  by (induction s) (auto split: if_splits)

lemma matchTag_shorter: "matchTag s = Some r \<Longrightarrow> length r < length s"
  by (cases s) (auto split: if_splits dest: afterFirst_shorter)

function stripTags :: "string \<Rightarrow> string" where
  "stripTags [] = []"
| "stripTags (c # cs) =
     (case matchTag (c # cs) of Some rest \<Rightarrow> stripTags rest | None \<Rightarrow> c # stripTags cs)"
  by pat_completeness auto
termination
  by (relation "measure length") (auto simp del: matchTag.simps dest: matchTag_shorter)

text \<open>
  \<open>.replace(/&[#\w]+;/g, '')\<close>: \<open>\w\<close> is \<open>[A-Za-z0-9_]\<close>. The greedy run behind \<open>&\<close>
  takes every character of the class; since \<open>;\<close> is not in the class, there is a match
  exactly when that run is not empty and a \<open>;\<close> follows it.
\<close>

definition isEntityChar :: "char \<Rightarrow> bool" where
  "isEntityChar c =
     (let n = (of_char c :: nat)
      in n = 35 \<or> n = 95 \<or> (48 \<le> n \<and> n \<le> 57) \<or> (65 \<le> n \<and> n \<le> 90)
         \<or> (97 \<le> n \<and> n \<le> 122))"

fun matchEntity :: "string \<Rightarrow> string option" where
  "matchEntity [] = None"
| "matchEntity (c # cs) =
     (if c = CHR ''&'' \<and> takeWhile isEntityChar cs \<noteq> []
      then (case dropWhile isEntityChar cs of
              [] \<Rightarrow> None
            | r # rs \<Rightarrow> if r = CHR '';'' then Some rs else None)
      else None)"

lemma matchEntity_shorter: "matchEntity s = Some r \<Longrightarrow> length r < length s"
proof (cases s)
  case Nil
  assume "matchEntity s = Some r"
  with Nil show ?thesis by simp
next
  case (Cons c cs)
  assume m: "matchEntity s = Some r"
  from m Cons obtain x where "dropWhile isEntityChar cs = x # r"
    by (auto split: if_splits list.splits)
  then have "length r < length (dropWhile isEntityChar cs)" by simp
  also have "\<dots> \<le> length cs" by (rule length_dropWhile_le)
  finally show ?thesis using Cons by simp
qed

function stripEntities :: "string \<Rightarrow> string" where
  "stripEntities [] = []"
| "stripEntities (c # cs) =
     (case matchEntity (c # cs) of
        Some rest \<Rightarrow> stripEntities rest
      | None \<Rightarrow> c # stripEntities cs)"
  by pat_completeness auto
termination
  by (relation "measure length") (auto simp del: matchEntity.simps dest: matchEntity_shorter)

text \<open>\<open>.trim()\<close>: the white space and line terminators below 256 are U+0009..U+000D,
  U+0020 and U+00A0.\<close>

definition isSpace :: "char \<Rightarrow> bool" where
  "isSpace c = (let n = (of_char c :: nat) in (9 \<le> n \<and> n \<le> 13) \<or> n = 32 \<or> n = 160)"

definition trim :: "string \<Rightarrow> string" where
  "trim s = rev (dropWhile isSpace (rev (dropWhile isSpace s)))"

text \<open>\<open>if (!text) return ''\<close>: \<open>undefined\<close>, \<open>null\<close> and the empty string.\<close>

definition sanitizeText :: "string option \<Rightarrow> string" where
  "sanitizeText text =
     (case text of
        None \<Rightarrow> []
      | Some s \<Rightarrow> if s = [] then [] else trim (stripEntities (stripTags s)))"

subsection \<open>getLocationType and getLocationValue\<close>

definition getLocationType :: "string \<Rightarrow> string" where
  "getLocationType query =
     (if str_includes query ''business'' then ''local''
      else if str_includes query ''economy'' then ''regional''
      else ''national'')"

definition getLocationValue :: "string \<Rightarrow> string \<Rightarrow> string \<Rightarrow> string \<Rightarrow> string" where
  "getLocationValue query city state country =
     (if str_includes query city then city
      else if str_includes query state then state
      else country)"

subsection \<open>fetchNewsFromAPI and getMockNewsData\<close>

text \<open>
  The outbound call \<open>axios.get\<close> either throws (timeout, network error, a status
  outside 2xx, or a body without \<open>data\<close>) or answers with a body whose \<open>articles\<close>
  may be absent. The upstream is a parameter: \<open>api k q n\<close> is what a call for query \<open>q\<close>
  with page size \<open>n\<close> gets when \<open>k\<close> calls stand before it in the log of the state it runs
  on, so the same query can be answered differently at different times and every mix of
  outcomes is a value of \<open>api\<close>. The state threaded through a chain of awaited calls holds
  the log of the calls of that chain, in the order they were sent, and the number of
  \<open>uuidv4()\<close> identifiers drawn so far.
\<close>

datatype response = Failure | Success "raw_article list option"

type_synonym upstream = "nat \<Rightarrow> string \<Rightarrow> int \<Rightarrow> response"

record world =
  requests :: "(string \<times> int) list"
  uuids :: nat

definition getMockNewsData :: "int \<Rightarrow> string \<Rightarrow> raw_article list" where
  "getMockNewsData now query =
     [ \<lparr> title = Some (''Breaking: Major '' @ query @ '' Development Announced''),
         description = Some (''Important news in the '' @ query
            @ '' sector affecting business operations and market trends.''),
         url = Some ''https://example.com/news/1'',
         urlToImage = Some ''https://via.placeholder.com/400x200?text=News+Image'',
         publishedAt = DateAt now,
         source = Some \<lparr> name = Some ''Business Times'', source_link = None \<rparr> \<rparr>,
       \<lparr> title = Some (query @ '' Market Shows Strong Growth This Quarter''),
         description = Some (''Analysis of recent '' @ query
            @ '' market performance and future outlook for investors.''),
         url = Some ''https://example.com/news/2'',
         urlToImage = Some ''https://via.placeholder.com/400x200?text=Market+News'',
         publishedAt = DateAt (now - 1 * 3600000),
         source = Some \<lparr> name = Some ''Economic Daily'', source_link = None \<rparr> \<rparr>,
       \<lparr> title = Some (''Innovation in '' @ query @ '': What Business Leaders Need to Know''),
         description = Some (''Expert insights on emerging trends in '' @ query
            @ '' and their impact on business strategy.''),
         url = Some ''https://example.com/news/3'',
         urlToImage = Some ''https://via.placeholder.com/400x200?text=Innovation+News'',
         publishedAt = DateAt (now - 2 * 3600000),
         source = Some \<lparr> name = Some ''Industry Weekly'', source_link = None \<rparr> \<rparr> ]"

definition fetchNewsFromAPI ::
  "upstream \<Rightarrow> int \<Rightarrow> string \<Rightarrow> int \<Rightarrow> world \<Rightarrow> raw_article list \<times> world" where
  "fetchNewsFromAPI api now query pageSize w =
     (let w' = w\<lparr>requests := requests w @ [(query, pageSize)]\<rparr>
      in case api (length (requests w)) query pageSize of
           Success articles \<Rightarrow> ((case articles of None \<Rightarrow> [] | Some xs \<Rightarrow> xs), w')
         | Failure \<Rightarrow> (getMockNewsData now query, w'))"

subsection \<open>Articles as the service returns them\<close>

record article =
  id' :: nat
  title :: string
  description :: string
  url :: "string option"
  image_url :: "string option"
  published_at :: pubdate
  source_name :: string
  source_url :: string
  category :: string
  location_type :: "string option"
  location_value :: "string option"
  industry :: "string option"
  relevance_score :: int

text \<open>\<open>articles.map(article => ({ id: uuidv4(), ... }))\<close>: one fresh identifier for
  each article, in order.\<close>

definition mapWithIds ::
  "(nat \<Rightarrow> raw_article \<Rightarrow> article) \<Rightarrow> raw_article list \<Rightarrow> world \<Rightarrow> article list \<times> world" where
  "mapWithIds f xs w =
     (map2 f [uuids w ..< uuids w + length xs] xs, w\<lparr>uuids := uuids w + length xs\<rparr>)"

text \<open>\<open>xs.slice(0, e)\<close>: a negative \<open>e\<close> counts from the end of the array.\<close>

definition slice0 :: "'a list \<Rightarrow> int \<Rightarrow> 'a list" where
  "slice0 xs e = (if e < 0 then take (nat (int (length xs) + e)) xs else take (nat e) xs)"

subsection \<open>getLocationBasedNews\<close>

definition locationArticle ::
  "int \<Rightarrow> string \<Rightarrow> string \<Rightarrow> string \<Rightarrow> string \<Rightarrow> nat \<Rightarrow> raw_article \<Rightarrow> article" where
  "locationArticle now query city state country i a =
     \<lparr> id' = i,
       title = sanitizeText (raw_article.title a),
       description = sanitizeText (raw_article.description a),
       url = raw_article.url a,
       image_url = urlToImage a,
       published_at = publishedAt a,
       source_name = orElse (source_name_of a) ''Unknown'',
       source_url = orElse (source_url_of a) [],
       category = ''business'',
       location_type = Some (getLocationType query),
       location_value = Some (getLocationValue query city state country),
       industry = None,
       relevance_score = calculateRelevanceScore now a query \<rparr>"

text \<open>The \<open>for (const query of queries)\<close> loop, with \<open>allNews\<close> as the accumulator.\<close>

fun locationLoop ::
  "upstream \<Rightarrow> int \<Rightarrow> string \<Rightarrow> string \<Rightarrow> string \<Rightarrow> int \<Rightarrow> string list \<Rightarrow> article list
   \<Rightarrow> world \<Rightarrow> article list \<times> world" where
  "locationLoop api now city state country limit [] allNews w = (allNews, w)"
| "locationLoop api now city state country limit (query # queries) allNews w =
     (let (articles, w1) = fetchNewsFromAPI api now query limit w;
          (processedArticles, w2) =
             mapWithIds (locationArticle now query city state country) articles w1
      in locationLoop api now city state country limit queries (allNews @ processedArticles) w2)"

definition getLocationBasedNews ::
  "upstream \<Rightarrow> int \<Rightarrow> string \<Rightarrow> string \<Rightarrow> string \<Rightarrow> int \<Rightarrow> world \<Rightarrow> article list \<times> world" where
  "getLocationBasedNews api now city state country limit w =
     (let queries = [city @ '' business'', state @ '' economy'', country @ '' business news''];
          (allNews, w') = locationLoop api now city state country limit queries [] w
      in (slice0 allNews (limit * 3), w'))"

subsection \<open>getIndustryNews\<close>

definition CAREER_INDUSTRIES :: "(string \<times> string list) list" where
  "CAREER_INDUSTRIES =
     [ (''technology'', [''technology'', ''startups'', ''artificial intelligence'', ''cybersecurity'']),
       (''finance'', [''finance'', ''banking'', ''cryptocurrency'', ''fintech'', ''stock market'']),
       (''healthcare'', [''healthcare'', ''medical'', ''pharmaceutical'', ''biotech'']),
       (''real_estate'', [''real estate'', ''property'', ''construction'', ''housing market'']),
       (''retail'', [''retail'', ''e-commerce'', ''consumer goods'', ''fashion'']),
       (''energy'', [''energy'', ''oil'', ''renewable energy'', ''utilities'']),
       (''manufacturing'', [''manufacturing'', ''automotive'', ''aerospace'', ''industrial'']),
       (''consulting'', [''consulting'', ''business services'', ''management'']),
       (''legal'', [''legal'', ''law'', ''compliance'', ''regulatory'']),
       (''marketing'', [''marketing'', ''advertising'', ''digital marketing'', ''social media'']) ]"

text \<open>
  \<open>CAREER_INDUSTRIES[careerField]\<close> is a property read on an object literal: a key of
  the literal gives its array, a name that the literal inherits from \<open>Object.prototype\<close>
  gives that inherited member (a function, or the prototype object for \<open>__proto__\<close>),
  and any other name gives \<open>undefined\<close>.
\<close>

definition objectPrototypeKeys :: "string list" where
  "objectPrototypeKeys =
     [ ''constructor'', ''hasOwnProperty'', ''isPrototypeOf'', ''propertyIsEnumerable'',
       ''toLocaleString'', ''toString'', ''valueOf'', ''__proto__'', ''__defineGetter__'',
       ''__defineSetter__'', ''__lookupGetter__'', ''__lookupSetter__'' ]"

datatype property = Undefined | Industries "string list" | Inherited

definition careerIndustries :: "string \<Rightarrow> property" where
  "careerIndustries careerField =
     (case map_of CAREER_INDUSTRIES careerField of
        Some v \<Rightarrow> Industries v
      | None \<Rightarrow> if careerField \<in> set objectPrototypeKeys then Inherited else Undefined)"

datatype error = TypeError string | Error string

definition industryArticle :: "int \<Rightarrow> string \<Rightarrow> nat \<Rightarrow> raw_article \<Rightarrow> article" where
  "industryArticle now ind i a =
     \<lparr> id' = i,
       title = sanitizeText (raw_article.title a),
       description = sanitizeText (raw_article.description a),
       url = raw_article.url a,
       image_url = urlToImage a,
       published_at = publishedAt a,
       source_name = orElse (source_name_of a) ''Unknown'',
       source_url = orElse (source_url_of a) [],
       category = ''industry'',
       location_type = None,
       location_value = None,
       industry = Some ind,
       relevance_score = calculateRelevanceScore now a ind \<rparr>"

fun industryLoop ::
  "upstream \<Rightarrow> int \<Rightarrow> int \<Rightarrow> string list \<Rightarrow> article list \<Rightarrow> world \<Rightarrow> article list \<times> world" where
  "industryLoop api now limit [] allNews w = (allNews, w)"
| "industryLoop api now limit (ind # industries) allNews w =
     (let (articles, w1) = fetchNewsFromAPI api now (ind @ '' business news'') limit w;
          (processedArticles, w2) = mapWithIds (industryArticle now ind) articles w1
      in industryLoop api now limit industries (allNews @ processedArticles) w2)"

text \<open>
  \<open>CAREER_INDUSTRIES[careerField] || [careerField]\<close>, then \<open>industries.slice(0, 2)\<close>:
  an inherited member is truthy and has no \<open>slice\<close>, so the call throws a TypeError
  before any query is sent.
\<close>

definition getIndustryNews ::
  "upstream \<Rightarrow> int \<Rightarrow> string \<Rightarrow> int \<Rightarrow> world \<Rightarrow> (error + article list) \<times> world" where
  "getIndustryNews api now careerField limit w =
     (case careerIndustries careerField of
        Inherited \<Rightarrow> (Inl (TypeError ''industries.slice is not a function''), w)
      | p \<Rightarrow>
          (let industries = (case p of Industries v \<Rightarrow> v | _ \<Rightarrow> [careerField]);
               (allNews, w') = industryLoop api now limit (take 2 industries) [] w
           in (Inr (slice0 allNews limit), w')))"

subsection \<open>getPersonalizedNews\<close>

record userProfile =
  city :: string
  state :: string
  country :: string
  career_field :: string

record personalized =
  local :: "article list"
  regional :: "article list"
  national :: "article list"
  industry :: "article list"
  global :: "article list"

definition globalArticle :: "int \<Rightarrow> nat \<Rightarrow> raw_article \<Rightarrow> article" where
  "globalArticle now i a =
     \<lparr> id' = i,
       title = sanitizeText (raw_article.title a),
       description = sanitizeText (raw_article.description a),
       url = raw_article.url a,
       image_url = urlToImage a,
       published_at = publishedAt a,
       source_name = orElse (source_name_of a) ''Unknown'',
       source_url = orElse (source_url_of a) [],
       category = ''global'',
       location_type = Some ''global'',
       location_value = None,
       article.industry = None,
       relevance_score = calculateRelevanceScore now a ''business'' \<rparr>"

text \<open>
  \<open>Promise.all\<close> starts the three parts together, on the state as it is when the request
  comes in. Each part is a chain of its own: it sends its next call when the answer to
  its last one has arrived, so the order in which calls of different chains go out
  depends on the upstream and is not fixed by the code. The model therefore keeps one log
  for each chain and no order between the chains; within a chain the log is in the order
  of sending. The identifiers come from one supply. All three chains run to their end,
  also when one of them rejects; a rejection is caught and replaced by the error
  \<open>Failed to fetch personalized news\<close>. The calls of one request differ in their position
  in their chain or in their query (lemma \<open>personalized_calls_distinct\<close>), so \<open>api\<close> still
  gives every call an outcome of its own.
\<close>

record fanout =
  locationChain :: world
  industryChain :: world
  globalChain :: world

definition getPersonalizedNews ::
  "upstream \<Rightarrow> int \<Rightarrow> userProfile \<Rightarrow> world \<Rightarrow> (error + personalized) \<times> fanout" where
  "getPersonalizedNews api now profile w =
     (let (locationNews, wl) =
            getLocationBasedNews api now (city profile) (state profile) (country profile) 5 w;
          (industryResult, wi) =
            getIndustryNews api now (career_field profile) 5 (w\<lparr>uuids := uuids wl\<rparr>);
          (globalNews, wg) =
            fetchNewsFromAPI api now ''global business economy'' 5 (w\<lparr>uuids := uuids wi\<rparr>)
      in case industryResult of
           Inl e \<Rightarrow>
             (Inl (Error ''Failed to fetch personalized news''),
              \<lparr> locationChain = wl, industryChain = wi, globalChain = wg \<rparr>)
         | Inr industryNews \<Rightarrow>
             (let (processedGlobalNews, wg') = mapWithIds (globalArticle now) globalNews wg
              in (Inr \<lparr> local = slice0 (filter (\<lambda>n. location_type n = Some ''local'') locationNews) 5,
                        regional = slice0 (filter (\<lambda>n. location_type n = Some ''regional'') locationNews) 5,
                        national = slice0 (filter (\<lambda>n. location_type n = Some ''national'') locationNews) 5,
                        industry = slice0 industryNews 5,
                        global = slice0 processedGlobalNews 5 \<rparr>,
                  \<lparr> locationChain = wl, industryChain = wi, globalChain = wg' \<rparr>)))"

subsection \<open>refreshNewsCache\<close>

text \<open>
  A row of the table \<open>news_articles\<close> is an article with the column \<open>created_at\<close>, which
  SQLite fills with \<open>CURRENT_TIMESTAMP\<close>: the UTC reading \<open>YYYY-MM-DD HH:MM:SS\<close> of the
  insertion. A reading of that fixed-width form is modelled by the number of seconds it
  denotes, since two such texts compare as these numbers do.
  \<open>moment().subtract(6, 'hours').format('YYYY-MM-DD HH:mm:ss')\<close> is the reading of the
  threshold on the wall clock of the zone the process runs in, \<open>utcOffset\<close> minutes ahead
  of UTC. A failing \<open>runQuery\<close> is caught and logged, and nothing changes.
\<close>

record news_articles_row = article +
  created_at :: int

record service =
  lastRefresh :: "int option"
  news_articles :: "news_articles_row list"

definition formatLocal :: "int \<Rightarrow> int \<Rightarrow> int" where
  "formatLocal utcOffset ms = ms div 1000 + utcOffset * 60"

definition refreshNewsCache :: "int \<Rightarrow> bool \<Rightarrow> int \<Rightarrow> service \<Rightarrow> service" where
  "refreshNewsCache utcOffset dbFails now s =
     (let sixHoursAgo = formatLocal utcOffset (now - 6 * 3600000)
      in if dbFails then s
         else s\<lparr> news_articles := filter (\<lambda>r. \<not> created_at r < sixHoursAgo) (news_articles s),
                 lastRefresh := Some now \<rparr>)"

subsection \<open>The relevance score in the words of the specification\<close>



subsection \<open>Entity-shaped substrings\<close>

text \<open>\<open>hasEntity s\<close>: the expression \<open>/&[#\w]+;/\<close> has a match somewhere in \<open>s\<close>.\<close>

fun hasEntity :: "string \<Rightarrow> bool" where
  "hasEntity [] = False"
| "hasEntity (c # cs) = (matchEntity (c # cs) \<noteq> None \<or> hasEntity cs)"

section \<open>Properties\<close>

lemma includes_sublist: "str_includes s t = sublist t s"
  by (induction s) (auto simp: sublist_Cons_right)

text \<open>
  C3. For every article and every keyword, whatever matches and whatever the
  publication date is, the relevance score is an integer between 0 and 10.
\<close>

theorem calculateRelevanceScore_range:
  "0 \<le> calculateRelevanceScore now article keyword
   \<and> calculateRelevanceScore now article keyword \<le> 10"
  by (simp add: calculateRelevanceScore_def Let_def split: option.split)

subsection \<open>The score, term by term\<close>






subsection \<open>The fallback of fetchNewsFromAPI\<close>

lemma mock_titles:
  "map raw_article.title (getMockNewsData now q) =
     [Some (''Breaking: Major '' @ q @ '' Development Announced''),
      Some (q @ '' Market Shows Strong Growth This Quarter''),
      Some (''Innovation in '' @ q @ '': What Business Leaders Need to Know'')]"
  by (simp add: getMockNewsData_def)

lemma mock_titles_include:
  assumes "a \<in> set (getMockNewsData now q)"
  shows "\<exists>t. raw_article.title a = Some t \<and> sublist q t"
proof -
  from assms have "raw_article.title a \<in> set (map raw_article.title (getMockNewsData now q))"
    by simp
  then consider
      "raw_article.title a = Some (''Breaking: Major '' @ q @ '' Development Announced'')"
    | "raw_article.title a = Some ([] @ q @ '' Market Shows Strong Growth This Quarter'')"
    | "raw_article.title a = Some (''Innovation in '' @ q @ '': What Business Leaders Need to Know'')"
    unfolding mock_titles by auto
  then show ?thesis
    by cases (blast intro: sublist_appendI)+
qed

text \<open>
  C2. When the outbound call fails, fetchNewsFromAPI returns (it has no error result) the
  placeholder list of getMockNewsData, which is not empty, and the title of every
  article of that list contains the query.
\<close>

theorem fetchNewsFromAPI_fallback:
  assumes "api (length (requests w)) q n = Failure"
  shows "fst (fetchNewsFromAPI api now q n w) = getMockNewsData now q
       \<and> fst (fetchNewsFromAPI api now q n w) \<noteq> []
       \<and> (\<forall>a \<in> set (fst (fetchNewsFromAPI api now q n w)).
             \<exists>t. raw_article.title a = Some t \<and> sublist q t)"
proof -
  have r: "fst (fetchNewsFromAPI api now q n w) = getMockNewsData now q"
    using assms by (simp add: fetchNewsFromAPI_def Let_def)
  have "getMockNewsData now q \<noteq> []"
    by (simp add: getMockNewsData_def)
  with r show ?thesis
    by (simp add: mock_titles_include)
qed

theorem fetchNewsFromAPI_fallback_witness:
  "fst (fetchNewsFromAPI (\<lambda>k q n. Failure) 0 ''Ottawa business'' 5 \<lparr>requests = [], uuids = 0\<rparr>) \<noteq> []
   \<and> list_all (\<lambda>a. \<exists>t. raw_article.title a = Some t \<and> sublist ''Ottawa business'' t)
        (fst (fetchNewsFromAPI (\<lambda>k q n. Failure) 0 ''Ottawa business'' 5 \<lparr>requests = [], uuids = 0\<rparr>))"
proof -
  have h: "(\<lambda>k q n. Failure) (length (requests \<lparr>requests = [], uuids = 0\<rparr>)) ''Ottawa business'' (5::int)
             = Failure"
    by simp
  show ?thesis
    unfolding list_all_iff using fetchNewsFromAPI_fallback [OF h, of 0] by blast
qed

subsection \<open>Location labels\<close>

lemma country_query_business: "sublist ''business'' (ctr @ '' business news'')"
  using sublist_appendI [of "''business''" "ctr @ '' ''" "'' news''"] by simp

text \<open>
  C6. The location type depends on the query string only: "local" when the query
  contains "business", otherwise "regional" when it contains "economy", otherwise
  "national". The country query "{country} business news" is therefore labelled "local"
  for every country, and getLocationBasedNews labels an article by the query that
  fetched it, whatever the article is.
\<close>

theorem getLocationType_rule:
  "(sublist ''business'' q \<longrightarrow> getLocationType q = ''local'')
   \<and> (\<not> sublist ''business'' q \<and> sublist ''economy'' q \<longrightarrow> getLocationType q = ''regional'')
   \<and> (\<not> sublist ''business'' q \<and> \<not> sublist ''economy'' q \<longrightarrow> getLocationType q = ''national'')
   \<and> getLocationType (ctr @ '' business news'') = ''local''
   \<and> location_type (locationArticle now q cty sta ctr i a) = Some (getLocationType q)"
  using country_query_business [of ctr]
  by (simp add: getLocationType_def includes_sublist locationArticle_def)

theorem getLocationType_rule_witness:
  "getLocationType ''Ottawa business'' = ''local''
   \<and> getLocationType ''ON economy'' = ''regional''
   \<and> getLocationType ''CA weather'' = ''national''
   \<and> getLocationType ''CA business news'' = ''local''"
proof -
  have 1: "sublist ''business'' ''Ottawa business''" by code_simp
  have 2: "\<not> sublist ''business'' ''ON economy'' \<and> sublist ''economy'' ''ON economy''" by code_simp
  have 3: "\<not> sublist ''business'' ''CA weather'' \<and> \<not> sublist ''economy'' ''CA weather''" by code_simp
  show ?thesis
    using 1 2 3 getLocationType_rule [of "''Ottawa business''" "''CA''"]
      getLocationType_rule [of "''ON economy''"] getLocationType_rule [of "''CA weather''"]
    by simp
qed

subsection \<open>The log of outbound calls\<close>

lemma fetch_requests:
  "requests (snd (fetchNewsFromAPI api now q n w)) = requests w @ [(q, n)]"
  by (simp add: fetchNewsFromAPI_def Let_def split: response.split)

lemma mapWithIds_requests: "requests (snd (mapWithIds f xs w)) = requests w"
  by (simp add: mapWithIds_def)

lemma mapWithIds_length: "length (fst (mapWithIds f xs w)) = length xs"
  by (simp add: mapWithIds_def)

lemma mapWithIds_set: "x \<in> set (fst (mapWithIds f xs w)) \<Longrightarrow> \<exists>i a. x = f i a"
  by (auto simp: mapWithIds_def)

lemma slice0_subset: "set (slice0 xs e) \<subseteq> set xs"
  by (auto simp: slice0_def dest: in_set_takeD)

lemma slice0_length: "0 \<le> e \<Longrightarrow> int (length (slice0 xs e)) \<le> e"
  by (simp add: slice0_def)

lemma locationLoop_requests:
  "requests (snd (locationLoop api now c s k limit qs acc w))
     = requests w @ map (\<lambda>q. (q, limit)) qs"
  by (induction qs arbitrary: acc w)
     (simp_all add: split_def Let_def fetch_requests mapWithIds_requests)

lemma locationLoop_set:
  "x \<in> set (fst (locationLoop api now c s k limit qs acc w)) \<Longrightarrow>
     x \<in> set acc \<or> (\<exists>q \<in> set qs. \<exists>i a. x = locationArticle now q c s k i a)"
proof (induction qs arbitrary: acc w)
  case Nil
  then show ?case by simp
next
  case (Cons q qs)
  let ?f = "fetchNewsFromAPI api now q limit w"
  let ?m = "mapWithIds (locationArticle now q c s k) (fst ?f) (snd ?f)"
  from Cons.prems have "x \<in> set (fst (locationLoop api now c s k limit qs (acc @ fst ?m) (snd ?m)))"
    by (simp add: split_def Let_def)
  from Cons.IH [OF this] show ?case
    by (auto dest: mapWithIds_set)
qed

lemma industryLoop_requests:
  "requests (snd (industryLoop api now limit inds acc w))
     = requests w @ map (\<lambda>i. (i @ '' business news'', limit)) inds"
  by (induction inds arbitrary: acc w)
     (simp_all add: split_def Let_def fetch_requests mapWithIds_requests)

lemma industryLoop_set:
  "x \<in> set (fst (industryLoop api now limit inds acc w)) \<Longrightarrow>
     x \<in> set acc \<or> (\<exists>ind \<in> set inds. \<exists>i a. x = industryArticle now ind i a)"
proof (induction inds arbitrary: acc w)
  case Nil
  then show ?case by simp
next
  case (Cons q qs)
  let ?f = "fetchNewsFromAPI api now (q @ '' business news'') limit w"
  let ?m = "mapWithIds (industryArticle now q) (fst ?f) (snd ?f)"
  from Cons.prems have "x \<in> set (fst (industryLoop api now limit qs (acc @ fst ?m) (snd ?m)))"
    by (simp add: split_def Let_def)
  from Cons.IH [OF this] show ?case
    by (auto dest: mapWithIds_set)
qed

lemma getLocationBasedNews_requests:
  "requests (snd (getLocationBasedNews api now c s k limit w))
     = requests w @ [(c @ '' business'', limit), (s @ '' economy'', limit),
                      (k @ '' business news'', limit)]"
  by (simp add: getLocationBasedNews_def split_def Let_def locationLoop_requests del: locationLoop.simps)

lemma getIndustryNews_requests:
  "requests (snd (getIndustryNews api now cf limit w))
     = requests w @ map (\<lambda>i. (i @ '' business news'', limit))
         (case careerIndustries cf of
            Inherited \<Rightarrow> [] | Industries v \<Rightarrow> take 2 v | Undefined \<Rightarrow> [cf])"
  by (simp add: getIndustryNews_def split_def Let_def industryLoop_requests del: industryLoop.simps split: property.split)

lemma query_endings:
  "c @ '' business'' \<noteq> i @ '' business news''"
  "c @ '' business'' \<noteq> ''global business economy''"
  "i @ '' business news'' \<noteq> ''global business economy''"
proof -
  show "c @ '' business'' \<noteq> i @ '' business news''"
  proof
    assume "c @ '' business'' = i @ '' business news''"
    then have "rev (c @ '' business'') = rev (i @ '' business news'')" by (rule arg_cong)
    then show False by simp
  qed
  show "c @ '' business'' \<noteq> ''global business economy''"
  proof
    assume "c @ '' business'' = ''global business economy''"
    then have "rev (c @ '' business'') = rev ''global business economy''" by (rule arg_cong)
    then show False by simp
  qed
  show "i @ '' business news'' \<noteq> ''global business economy''"
  proof
    assume "i @ '' business news'' = ''global business economy''"
    then have "rev (i @ '' business news'') = rev ''global business economy''" by (rule arg_cong)
    then show False by simp
  qed
qed

text \<open>
  The calls of one request, each with the number of calls before it in its chain (\<open>m\<close>
  calls stand in the log when the request comes in), are pairwise different, whatever
  the profile is: two calls of one chain differ in the number, two calls of different
  chains with the same number differ in the ending of the query.
\<close>

lemma personalized_calls_distinct:
  "distinct [ (m, c @ '' business''), (Suc m, s @ '' economy''),
              (Suc (Suc m), k @ '' business news''),
              (m, i1 @ '' business news''), (Suc m, i2 @ '' business news''),
              (m, ''global business economy'') ]"
  using query_endings(1) [of c i1] query_endings(2) [of c] query_endings(3) [of i1]
  by simp

lemma getPersonalizedNews_chains:
  "requests (locationChain (snd (getPersonalizedNews api now profile w)))
     = requests w @ [(city profile @ '' business'', 5), (state profile @ '' economy'', 5),
                      (country profile @ '' business news'', 5)]"
  "requests (industryChain (snd (getPersonalizedNews api now profile w)))
     = requests w @ map (\<lambda>i. (i @ '' business news'', 5))
         (case careerIndustries (career_field profile) of
            Inherited \<Rightarrow> [] | Industries v \<Rightarrow> take 2 v | Undefined \<Rightarrow> [career_field profile])"
  "requests (globalChain (snd (getPersonalizedNews api now profile w)))
     = requests w @ [(''global business economy'', 5)]"
  by (simp_all add: getPersonalizedNews_def split_def Let_def fetch_requests mapWithIds_requests
      getLocationBasedNews_requests getIndustryNews_requests split: sum.split)

text \<open>
  C7. One call of getPersonalizedNews sends, on its three chains, the three location
  queries, at most two industry queries and the one global query, hence at most six
  outbound calls for every profile and upstream. The industry chain sends the first two
  entries of the career field's list, or the career field itself when the table lookup
  is undefined. The claim asks for that fallback for every unknown career field: for the
  career field "constructor", which is no key of the table, the lookup yields an
  inherited member and the industry chain sends no query at all.
\<close>

theorem outbound_calls_inherited_key:
  "requests (industryChain (snd (getPersonalizedNews api now
       \<lparr>city = c, state = s, country = k, career_field = ''constructor''\<rparr> w)))
     = requests w
   \<and> requests (locationChain (snd (getPersonalizedNews api now profile w)))
     = requests w @ [(city profile @ '' business'', 5), (state profile @ '' economy'', 5),
                      (country profile @ '' business news'', 5)]
   \<and> (\<exists>ind. requests (industryChain (snd (getPersonalizedNews api now profile w)))
                = requests w @ map (\<lambda>i. (i @ '' business news'', 5)) ind
            \<and> ind = (case careerIndustries (career_field profile) of
                       Inherited \<Rightarrow> []
                     | Industries v \<Rightarrow> take 2 v
                     | Undefined \<Rightarrow> [career_field profile])
            \<and> length ind \<le> 2)
   \<and> requests (globalChain (snd (getPersonalizedNews api now profile w)))
     = requests w @ [(''global business economy'', 5)]
   \<and> (length (requests (locationChain (snd (getPersonalizedNews api now profile w))))
         - length (requests w))
     + (length (requests (industryChain (snd (getPersonalizedNews api now profile w))))
         - length (requests w))
     + (length (requests (globalChain (snd (getPersonalizedNews api now profile w))))
         - length (requests w))
     \<le> 6"
proof -
  have inh: "careerIndustries ''constructor'' = Inherited"
    by (simp add: careerIndustries_def CAREER_INDUSTRIES_def objectPrototypeKeys_def)
  have two: "length (case careerIndustries (career_field profile) of
                       Inherited \<Rightarrow> []
                     | Industries v \<Rightarrow> take 2 v
                     | Undefined \<Rightarrow> [career_field profile]) \<le> 2"
    by (cases "careerIndustries (career_field profile)") simp_all
  show ?thesis
    unfolding getPersonalizedNews_chains using two by (simp add: inh)
qed

subsection \<open>What the aggregation returns\<close>

lemma getLocationBasedNews_set:
  assumes "x \<in> set (fst (getLocationBasedNews api now c s k limit w))"
  shows "\<exists>q i a. x = locationArticle now q c s k i a"
proof -
  from assms have "x \<in> set (fst (locationLoop api now c s k limit
      [c @ '' business'', s @ '' economy'', k @ '' business news''] [] w))"
    using slice0_subset by (fastforce simp: getLocationBasedNews_def split_def Let_def
        simp del: locationLoop.simps)
  from locationLoop_set [OF this] show ?thesis by auto
qed

lemma getIndustryNews_set:
  assumes "fst (getIndustryNews api now cf limit w) = Inr r" and "x \<in> set r"
  shows "\<exists>ind i a. x = industryArticle now ind i a"
proof -
  from assms obtain inds where "x \<in> set (fst (industryLoop api now limit inds [] w))"
    using slice0_subset
    by (fastforce simp: getIndustryNews_def split_def Let_def simp del: industryLoop.simps
        split: property.splits)
  from industryLoop_set [OF this] show ?thesis by auto
qed

lemma getPersonalizedNews_Inr:
  assumes "fst (getPersonalizedNews api now p w) = Inr r"
  shows "set (local r) \<union> set (regional r) \<union> set (national r)
           \<subseteq> set (fst (getLocationBasedNews api now (city p) (state p) (country p) 5 w))"
    and "\<exists>ind w1. fst (getIndustryNews api now (career_field p) 5 w1) = Inr ind
           \<and> set (personalized.industry r) \<subseteq> set ind"
    and "\<exists>glob w2. set (global r) \<subseteq> set (fst (mapWithIds (globalArticle now) glob w2))"
proof -
  define L where "L = getLocationBasedNews api now (city p) (state p) (country p) 5 w"
  define I where "I = getIndustryNews api now (career_field p) 5 (w\<lparr>uuids := uuids (snd L)\<rparr>)"
  define G where "G = fetchNewsFromAPI api now ''global business economy'' 5
                        (w\<lparr>uuids := uuids (snd I)\<rparr>)"
  from assms obtain ind where i: "fst I = Inr ind"
    and r: "r = \<lparr> local = slice0 (filter (\<lambda>n. location_type n = Some ''local'') (fst L)) 5,
                  regional = slice0 (filter (\<lambda>n. location_type n = Some ''regional'') (fst L)) 5,
                  national = slice0 (filter (\<lambda>n. location_type n = Some ''national'') (fst L)) 5,
                  industry = slice0 ind 5,
                  global = slice0 (fst (mapWithIds (globalArticle now) (fst G) (snd G))) 5 \<rparr>"
    by (auto simp: getPersonalizedNews_def split_def Let_def L_def I_def G_def split: sum.splits)
  have sub: "\<And>P. set (slice0 (filter P (fst L)) 5) \<subseteq> set (fst L)"
    using slice0_subset by fastforce
  show "set (local r) \<union> set (regional r) \<union> set (national r)
           \<subseteq> set (fst (getLocationBasedNews api now (city p) (state p) (country p) 5 w))"
    unfolding L_def [symmetric] by (simp add: r sub)
  show "\<exists>ind w1. fst (getIndustryNews api now (career_field p) 5 w1) = Inr ind
           \<and> set (personalized.industry r) \<subseteq> set ind"
    using i slice0_subset unfolding I_def by (fastforce simp: r)
  show "\<exists>glob w2. set (global r) \<subseteq> set (fst (mapWithIds (globalArticle now) glob w2))"
    using slice0_subset by (fastforce simp: r)
qed

lemma getPersonalizedNews_Inl:
  "careerIndustries (career_field p) = Inherited \<Longrightarrow>
     fst (getPersonalizedNews api now p w) = Inl (Error ''Failed to fetch personalized news'')"
  by (simp add: getPersonalizedNews_def getIndustryNews_def split_def Let_def)

lemma getPersonalizedNews_buckets:
  assumes "careerIndustries (career_field p) \<noteq> Inherited"
  shows "\<exists>r. fst (getPersonalizedNews api now p w) = Inr r
           \<and> length (local r) \<le> 5 \<and> length (regional r) \<le> 5 \<and> length (national r) \<le> 5
           \<and> length (personalized.industry r) \<le> 5 \<and> length (global r) \<le> 5"
proof -
  from assms obtain ind where
    "fst (getIndustryNews api now (career_field p) 5
           (w\<lparr>uuids := uuids (snd (getLocationBasedNews api now (city p) (state p) (country p)
                                     5 w))\<rparr>)) = Inr ind"
    by (cases "careerIndustries (career_field p)")
       (simp_all add: getIndustryNews_def split_def Let_def)
  then show ?thesis
    by (simp add: getPersonalizedNews_def split_def Let_def slice0_def)
qed

text \<open>
  Each of the three location queries contains "business" or "economy", so no article of
  getLocationBasedNews is labelled "national", and the national bucket of
  getPersonalizedNews is always empty.
\<close>

lemma getLocationBasedNews_queries:
  assumes "x \<in> set (fst (getLocationBasedNews api now c s k limit w))"
  shows "\<exists>q \<in> {c @ '' business'', s @ '' economy'', k @ '' business news''}.
           \<exists>i a. x = locationArticle now q c s k i a"
proof -
  from assms have "x \<in> set (fst (locationLoop api now c s k limit
      [c @ '' business'', s @ '' economy'', k @ '' business news''] [] w))"
    using slice0_subset by (fastforce simp: getLocationBasedNews_def split_def Let_def
        simp del: locationLoop.simps)
  from locationLoop_set [OF this] show ?thesis by auto
qed

lemma location_queries_labels:
  "getLocationType (c @ '' business'') = ''local''"
  "getLocationType (s @ '' economy'') \<in> {''local'', ''regional''}"
  "getLocationType (k @ '' business news'') = ''local''"
proof -
  have "sublist ''business'' (c @ '' business'')"
    using sublist_appendI [of "''business''" "c @ '' ''" "[]"] by simp
  then show "getLocationType (c @ '' business'') = ''local''"
    by (simp add: getLocationType_def includes_sublist)
  have "sublist ''economy'' (s @ '' economy'')"
    using sublist_appendI [of "''economy''" "s @ '' ''" "[]"] by simp
  then show "getLocationType (s @ '' economy'') \<in> {''local'', ''regional''}"
    by (simp add: getLocationType_def includes_sublist)
  show "getLocationType (k @ '' business news'') = ''local''"
    using country_query_business [of k] by (simp add: getLocationType_def includes_sublist)
qed

lemma getLocationBasedNews_never_national:
  assumes "x \<in> set (fst (getLocationBasedNews api now c s k limit w))"
  shows "location_type x = Some ''local'' \<or> location_type x = Some ''regional''"
proof -
  from getLocationBasedNews_queries [OF assms]
  obtain q i a where q: "q \<in> {c @ '' business'', s @ '' economy'', k @ '' business news''}"
    and x: "x = locationArticle now q c s k i a" by blast
  from q location_queries_labels(1) [of c] location_queries_labels(2) [of s]
    location_queries_labels(3) [of k]
  have "getLocationType q = ''local'' \<or> getLocationType q = ''regional''" by auto
  then show ?thesis by (simp add: x locationArticle_def)
qed

lemma national_bucket_empty:
  assumes "fst (getPersonalizedNews api now p w) = Inr r"
  shows "national r = []"
proof -
  let ?loc = "fst (getLocationBasedNews api now (city p) (state p) (country p) 5 w)"
  have "\<And>x. x \<in> set ?loc \<Longrightarrow> location_type x \<noteq> Some ''national''"
  proof -
    fix x assume "x \<in> set ?loc"
    from getLocationBasedNews_never_national [OF this]
    show "location_type x \<noteq> Some ''national''" by auto
  qed
  then have "filter (\<lambda>n. location_type n = Some ''national'') ?loc = []"
    by (simp add: filter_empty_conv)
  with assms show ?thesis
    by (auto simp: getPersonalizedNews_def split_def Let_def slice0_def split: sum.splits)
qed

text \<open>
  C1. The claim asks for the five buckets for every user profile. For the profile with
  the career field "constructor" the table lookup yields an inherited member of the
  object, getIndustryNews throws, and getPersonalizedNews ends with the error
  "Failed to fetch personalized news" instead of the five buckets, whatever the
  upstream does. (For every career field that is not an inherited name the five buckets
  are returned, each with at most 5 articles: lemma \<open>getPersonalizedNews_buckets\<close>.)
\<close>

theorem getPersonalizedNews_inherited_key:
  "fst (getPersonalizedNews api now
         \<lparr>city = ''Ottawa'', state = ''ON'', country = ''CA'', career_field = ''constructor''\<rparr> w)
     = Inl (Error ''Failed to fetch personalized news'')"
  by (rule getPersonalizedNews_Inl)
     (simp add: careerIndustries_def CAREER_INDUSTRIES_def objectPrototypeKeys_def)

subsection \<open>Categories\<close>

lemma locationLoop_failure_length:
  "length (fst (locationLoop (\<lambda>k q n. Failure) now c s k limit qs acc w))
     = length acc + 3 * length qs"
  by (induction qs arbitrary: acc w)
     (simp_all add: split_def Let_def mapWithIds_length fetchNewsFromAPI_def getMockNewsData_def)

lemma getLocationBasedNews_failure_length:
  "length (fst (getLocationBasedNews (\<lambda>k q n. Failure) now c s k limit w))
     = (if limit * 3 < 0 then nat (9 + limit * 3) else min 9 (nat (limit * 3)))"
  by (simp add: getLocationBasedNews_def split_def Let_def locationLoop_failure_length slice0_def
      del: locationLoop.simps)

lemma location_labels:
  "getLocationType q \<in> {''local'', ''regional'', ''national''}"
  by (simp add: getLocationType_def)

lemma getLocationBasedNews_category:
  assumes "x \<in> set (fst (getLocationBasedNews api now c s k limit w))"
  shows "category x = ''business''"
    and "location_type x \<in> {Some ''local'', Some ''regional'', Some ''national''}"
proof -
  from getLocationBasedNews_set [OF assms]
  obtain q i a where x: "x = locationArticle now q c s k i a" by blast
  show "category x = ''business''" by (simp add: x locationArticle_def)
  show "location_type x \<in> {Some ''local'', Some ''regional'', Some ''national''}"
    using location_labels [of q] by (simp add: x locationArticle_def)
qed

lemma getIndustryNews_category:
  assumes "fst (getIndustryNews api now cf limit w) = Inr r" and "x \<in> set r"
  shows "category x = ''industry''"
proof -
  from getIndustryNews_set [OF assms]
  obtain ind i a where "x = industryArticle now ind i a" by blast
  then show ?thesis by (simp add: industryArticle_def)
qed

lemma industryLoop_failure_length:
  "length (fst (industryLoop (\<lambda>k q n. Failure) now limit inds acc w))
     = length acc + 3 * length inds"
  by (induction inds arbitrary: acc w)
     (simp_all add: split_def Let_def mapWithIds_length fetchNewsFromAPI_def getMockNewsData_def)

lemma getIndustryNews_technology:
  "\<exists>r. fst (getIndustryNews (\<lambda>k q n. Failure) now ''technology'' 5 w) = Inr r \<and> length r = 5"
  by (simp add: getIndustryNews_def careerIndustries_def CAREER_INDUSTRIES_def split_def Let_def
      industryLoop_failure_length slice0_def del: industryLoop.simps)

lemma getPersonalizedNews_failure_global:
  "fst (getPersonalizedNews (\<lambda>k q n. Failure) now p w) = Inr r \<Longrightarrow> length (global r) = 3"
  by (auto simp: getPersonalizedNews_def split_def Let_def fetchNewsFromAPI_def
      getMockNewsData_def mapWithIds_length slice0_def split: sum.splits)

text \<open>
  C8, amended. The category of an article is "business" when getLocationBasedNews
  produced it (its location type is then one of "local", "regional", "national"),
  "industry" when getIndustryNews produced it, and "global" in the global bucket of
  getPersonalizedNews; the three location buckets hold "business" articles.
\<close>

theorem article_categories:
  "(\<forall>a \<in> set (fst (getLocationBasedNews api now c s k limit w)).
      category a = ''business''
      \<and> location_type a \<in> {Some ''local'', Some ''regional'', Some ''national''})
   \<and> (\<forall>r. fst (getIndustryNews api now cf limit w) = Inr r \<longrightarrow>
          (\<forall>a \<in> set r. category a = ''industry''))
   \<and> (\<forall>r. fst (getPersonalizedNews api now p w) = Inr r \<longrightarrow>
          (\<forall>a \<in> set (local r) \<union> set (regional r) \<union> set (national r). category a = ''business'')
          \<and> (\<forall>a \<in> set (personalized.industry r). category a = ''industry'')
          \<and> (\<forall>a \<in> set (global r). category a = ''global''))"
proof (intro conjI allI impI ballI)
  fix a assume "a \<in> set (fst (getLocationBasedNews api now c s k limit w))"
  then show "category a = ''business''"
    and "location_type a \<in> {Some ''local'', Some ''regional'', Some ''national''}"
    by (rule getLocationBasedNews_category)+
next
  fix r a assume "fst (getIndustryNews api now cf limit w) = Inr r" and "a \<in> set r"
  then show "category a = ''industry''" by (rule getIndustryNews_category)
next
  fix r a assume r: "fst (getPersonalizedNews api now p w) = Inr r"
    and "a \<in> set (local r) \<union> set (regional r) \<union> set (national r)"
  with getPersonalizedNews_Inr(1) [OF r]
  have "a \<in> set (fst (getLocationBasedNews api now (city p) (state p) (country p) 5 w))"
    by blast
  then show "category a = ''business''" by (rule getLocationBasedNews_category)
next
  fix r a assume r: "fst (getPersonalizedNews api now p w) = Inr r"
    and a: "a \<in> set (personalized.industry r)"
  from getPersonalizedNews_Inr(2) [OF r] obtain ind w1
    where "fst (getIndustryNews api now (career_field p) 5 w1) = Inr ind" and "a \<in> set ind"
    using a by blast
  then show "category a = ''industry''" by (rule getIndustryNews_category)
next
  fix r a assume r: "fst (getPersonalizedNews api now p w) = Inr r" and a: "a \<in> set (global r)"
  from getPersonalizedNews_Inr(3) [OF r] obtain glob w2
    where "a \<in> set (fst (mapWithIds (globalArticle now) glob w2))"
    using a by blast
  from mapWithIds_set [OF this] show "category a = ''global''"
    by (auto simp: globalArticle_def)
qed

theorem article_categories_witness:
  "list_all (\<lambda>a. category a = ''business'')
     (fst (getLocationBasedNews (\<lambda>k q n. Failure) 0 ''Ottawa'' ''ON'' ''CA'' 5
            \<lparr>requests = [], uuids = 0\<rparr>))
   \<and> length (fst (getLocationBasedNews (\<lambda>k q n. Failure) 0 ''Ottawa'' ''ON'' ''CA'' 5
            \<lparr>requests = [], uuids = 0\<rparr>)) = 9
   \<and> (\<exists>r. fst (getIndustryNews (\<lambda>k q n. Failure) 0 ''technology'' 5
                 \<lparr>requests = [], uuids = 0\<rparr>) = Inr r
          \<and> length r = 5 \<and> list_all (\<lambda>a. category a = ''industry'') r)
   \<and> (\<exists>r. fst (getPersonalizedNews (\<lambda>k q n. Failure) 0
                 \<lparr>city = ''Ottawa'', state = ''ON'', country = ''CA'', career_field = ''technology''\<rparr>
                 \<lparr>requests = [], uuids = 0\<rparr>) = Inr r
          \<and> list_all (\<lambda>a. category a = ''business'') (local r @ regional r @ national r)
          \<and> list_all (\<lambda>a. category a = ''industry'') (personalized.industry r)
          \<and> list_all (\<lambda>a. category a = ''global'') (global r)
          \<and> length (global r) = 3)"
proof -
  let ?api = "\<lambda>(k::nat) (q::string) (n::int). Failure"
  let ?w = "\<lparr>requests = [], uuids = 0\<rparr>"
  let ?p = "\<lparr>city = ''Ottawa'', state = ''ON'', country = ''CA'', career_field = ''technology''\<rparr>"
  note t = article_categories [of ?api 0 "''Ottawa''" "''ON''" "''CA''" 5 ?w "''technology''" ?p]
  have 1: "list_all (\<lambda>a. category a = ''business'')
     (fst (getLocationBasedNews ?api 0 ''Ottawa'' ''ON'' ''CA'' 5 ?w))"
    using t by (simp add: list_all_iff)
  have 2: "length (fst (getLocationBasedNews ?api 0 ''Ottawa'' ''ON'' ''CA'' 5 ?w)) = 9"
    by (simp add: getLocationBasedNews_failure_length)
  obtain ri where ri: "fst (getIndustryNews ?api 0 ''technology'' 5 ?w) = Inr ri" "length ri = 5"
    using getIndustryNews_technology by blast
  with t have 3: "list_all (\<lambda>a. category a = ''industry'') ri"
    unfolding list_all_iff by blast
  have "careerIndustries (career_field ?p) \<noteq> Inherited"
    by (simp add: careerIndustries_def CAREER_INDUSTRIES_def)
  from getPersonalizedNews_buckets [OF this]
  obtain rp where rp: "fst (getPersonalizedNews ?api 0 ?p ?w) = Inr rp" by blast
  from t rp have 4: "list_all (\<lambda>a. category a = ''business'') (local rp @ regional rp @ national rp)"
    and 5: "list_all (\<lambda>a. category a = ''industry'') (personalized.industry rp)"
    and 6: "list_all (\<lambda>a. category a = ''global'') (global rp)"
    unfolding list_all_iff by auto
  from rp have 7: "length (global rp) = 3" by (rule getPersonalizedNews_failure_global)
  from 1 2 ri 3 rp 4 5 6 7 show ?thesis by blast
qed

text \<open>
  C8 as stated fails: the articles of getLocationBasedNews carry the category
  "business", which is none of local, regional, national, industry, global.
\<close>

theorem article_categories_counterexample:
  "\<not> (\<forall>a \<in> set (fst (getLocationBasedNews (\<lambda>k q n. Failure) 0 ''Ottawa'' ''ON'' ''CA'' 5
                        \<lparr>requests = [], uuids = 0\<rparr>)).
        category a \<in> {''local'', ''regional'', ''national'', ''industry'', ''global''})"
proof -
  let ?r = "fst (getLocationBasedNews (\<lambda>k q n. Failure) 0 ''Ottawa'' ''ON'' ''CA'' 5
                        \<lparr>requests = [], uuids = 0\<rparr>)"
  have "length ?r = 9" by (simp add: getLocationBasedNews_failure_length)
  then obtain x where x: "x \<in> set ?r" by (cases ?r) auto
  then have "category x = ''business''" by (rule getLocationBasedNews_category)
  with x show ?thesis by force
qed

subsection \<open>The size of the location result\<close>

text \<open>
  C10, amended. For every limit that is not negative, getLocationBasedNews returns at
  most 3 * limit articles; each of its three queries is sent with page size limit; and
  the bound is not limit: with limit 1 and a failing upstream it returns 3 articles.
\<close>

theorem getLocationBasedNews_length:
  "(0 \<le> limit \<longrightarrow>
      int (length (fst (getLocationBasedNews api now c s k limit w))) \<le> 3 * limit)
   \<and> requests (snd (getLocationBasedNews api now c s k limit w))
       = requests w @ [(c @ '' business'', limit), (s @ '' economy'', limit),
                        (k @ '' business news'', limit)]
   \<and> length (fst (getLocationBasedNews (\<lambda>k q n. Failure) now c s k 1 w)) = 3"
proof (intro conjI impI)
  assume "0 \<le> limit"
  then have "0 \<le> limit * 3" by simp
  from slice0_length [OF this] show
    "int (length (fst (getLocationBasedNews api now c s k limit w))) \<le> 3 * limit"
    by (simp add: getLocationBasedNews_def split_def Let_def mult.commute del: locationLoop.simps)
next
  show "requests (snd (getLocationBasedNews api now c s k limit w))
       = requests w @ [(c @ '' business'', limit), (s @ '' economy'', limit),
                        (k @ '' business news'', limit)]"
    by (rule getLocationBasedNews_requests)
next
  show "length (fst (getLocationBasedNews (\<lambda>k q n. Failure) now c s k 1 w)) = 3"
    by (simp add: getLocationBasedNews_failure_length)
qed

theorem getLocationBasedNews_length_witness:
  "int (length (fst (getLocationBasedNews (\<lambda>k q n. Failure) 0 ''Ottawa'' ''ON'' ''CA'' 2
                       \<lparr>requests = [], uuids = 0\<rparr>))) \<le> 3 * 2"
  using getLocationBasedNews_length [of 2 "\<lambda>k q n. Failure" 0 "''Ottawa''" "''ON''" "''CA''"
      "\<lparr>requests = [], uuids = 0\<rparr>"]
  by simp

text \<open>
  C10 as stated fails for a negative limit, where \<open>slice(0, limit * 3)\<close> cuts from the
  end: with limit -1 and a failing upstream, 6 of the 9 placeholder articles are
  returned, which is more than 3 * limit.
\<close>

theorem getLocationBasedNews_length_counterexample:
  "\<not> int (length (fst (getLocationBasedNews (\<lambda>k q n. Failure) 0 ''Ottawa'' ''ON'' ''CA'' (- 1)
                         \<lparr>requests = [], uuids = 0\<rparr>))) \<le> 3 * (- 1)"
  by (simp add: getLocationBasedNews_failure_length)

subsection \<open>Sanitized text\<close>

lemma subseq_pair_Cons:
  "subseq [a, b] (c # cs) \<longleftrightarrow> (c = a \<and> b \<in> set cs) \<or> subseq [a, b] cs"
proof -
  have "subseq [a, b] cs \<Longrightarrow> b \<in> set cs"
    using subseq_Cons' [of a "[b]" cs] by (simp add: subseq_singleton_left)
  then show ?thesis by (auto simp: subseq_singleton_left)
qed

lemma subseq_set: "subseq xs ys \<Longrightarrow> set xs \<subseteq> set ys"
  by (induction rule: list_emb.induct) auto

lemma subseq_pair_iff:
  "subseq [a, b] s \<longleftrightarrow> (\<exists>p m r. s = p @ [a] @ m @ [b] @ r)"
proof
  assume "subseq [a, b] s"
  then obtain us v vs where s: "s = us @ v # vs" and "a = v" and "subseq [b] vs"
    by (auto dest: list_emb_ConsD)
  then have "b \<in> set vs" by (simp add: subseq_singleton_left)
  then obtain m r where "vs = m @ b # r" by (auto dest: split_list)
  with s \<open>a = v\<close> show "\<exists>p m r. s = p @ [a] @ m @ [b] @ r" by auto
next
  assume "\<exists>p m r. s = p @ [a] @ m @ [b] @ r"
  then obtain p m r where "s = p @ [a] @ m @ [b] @ r" by blast
  then show "subseq [a, b] s"
    by (auto intro!: list_emb_append2 simp: subseq_singleton_left)
qed

lemma afterFirst_None: "afterFirst d s = None \<longleftrightarrow> d \<notin> set s"
  by (induction s) auto

lemma afterFirst_suffix: "afterFirst d s = Some r \<Longrightarrow> suffix r s"
  by (induction s) (auto split: if_splits intro: suffix_ConsI)

lemma matchTag_suffix: "matchTag s = Some r \<Longrightarrow> suffix r s"
  by (cases s) (auto split: if_splits dest: afterFirst_suffix intro: suffix_ConsI)

lemma stripTags_subseq: "subseq (stripTags s) s"
proof (induction s rule: stripTags.induct)
  case 1
  then show ?case by simp
next
  case (2 c cs)
  show ?case
  proof (cases "matchTag (c # cs)")
    case None
    with 2 show ?thesis by simp
  next
    case (Some rest)
    with 2 have "subseq (stripTags rest) rest" by simp
    moreover from Some have "subseq rest (c # cs)"
      by (intro suffix_imp_subseq matchTag_suffix)
    ultimately show ?thesis using Some by (simp del: matchTag.simps)
  qed
qed

lemma stripTags_tagfree: "\<not> subseq ''<>'' (stripTags s)"
proof (induction s rule: stripTags.induct)
  case 1
  then show ?case by simp
next
  case (2 c cs)
  show ?case
  proof (cases "matchTag (c # cs)")
    case (Some rest)
    with 2 show ?thesis by (simp del: matchTag.simps)
  next
    case None
    with 2 have ih: "\<not> subseq ''<>'' (stripTags cs)" by simp
    have "c = CHR ''<'' \<Longrightarrow> CHR ''>'' \<notin> set (stripTags cs)"
    proof -
      assume "c = CHR ''<''"
      with None have "CHR ''>'' \<notin> set cs" by (simp add: afterFirst_None)
      moreover have "set (stripTags cs) \<subseteq> set cs"
        using stripTags_subseq [of cs] by (rule subseq_set)
      ultimately show ?thesis by blast
    qed
    then have "\<not> subseq ''<>'' (c # stripTags cs)"
      using ih subseq_pair_Cons [of "CHR ''<''" "CHR ''>''" c "stripTags cs"] by blast
    with None show ?thesis by (simp del: matchTag.simps)
  qed
qed

lemma matchEntity_suffix: "matchEntity s = Some r \<Longrightarrow> suffix r s"
proof (cases s)
  case Nil
  assume "matchEntity s = Some r"
  with Nil show ?thesis by simp
next
  case (Cons c cs)
  assume "matchEntity s = Some r"
  with Cons obtain x where "dropWhile isEntityChar cs = x # r"
    by (auto split: if_splits list.splits)
  then have "suffix r (dropWhile isEntityChar cs)" by (simp add: suffix_ConsI)
  then have "suffix r cs" using suffix_dropWhile suffix_order.trans by blast
  then show ?thesis using Cons by (simp add: suffix_ConsI)
qed

lemma stripEntities_subseq: "subseq (stripEntities s) s"
proof (induction s rule: stripEntities.induct)
  case 1
  then show ?case by simp
next
  case (2 c cs)
  show ?case
  proof (cases "matchEntity (c # cs)")
    case None
    with 2 show ?thesis by (simp del: matchEntity.simps)
  next
    case (Some rest)
    with 2 have "subseq (stripEntities rest) rest" by simp
    moreover from Some have "subseq rest (c # cs)"
      by (intro suffix_imp_subseq matchEntity_suffix)
    ultimately show ?thesis using Some by (simp del: matchEntity.simps)
  qed
qed

lemma trim_subseq: "subseq (trim s) s"
proof -
  have "suffix (dropWhile isSpace (rev (dropWhile isSpace s))) (rev (dropWhile isSpace s))"
    by (rule suffix_dropWhile)
  then have "prefix (trim s) (dropWhile isSpace s)"
    by (simp add: trim_def suffix_to_prefix)
  then have "subseq (trim s) (dropWhile isSpace s)" by (rule prefix_imp_subseq)
  moreover have "subseq (dropWhile isSpace s) s"
    by (intro suffix_imp_subseq suffix_dropWhile)
  ultimately show ?thesis by (metis subseq_order.order_trans)
qed

lemma sanitizeText_tagfree: "\<not> subseq ''<>'' (sanitizeText t)"
proof (cases t)
  case None
  then show ?thesis by (simp add: sanitizeText_def)
next
  case (Some s)
  have "subseq (trim (stripEntities (stripTags s))) (stripTags s)"
    using trim_subseq stripEntities_subseq by (metis subseq_order.order_trans)
  then have "\<not> subseq ''<>'' (trim (stripEntities (stripTags s)))"
    using stripTags_tagfree [of s] by (metis subseq_order.order_trans)
  with Some show ?thesis by (simp add: sanitizeText_def)
qed


lemma stripTags_id: "\<not> subseq ''<>'' s \<Longrightarrow> stripTags s = s"
proof (induction s)
  case Nil
  then show ?case by simp
next
  case (Cons c cs)
  from Cons.prems subseq_pair_Cons [of "CHR ''<''" "CHR ''>''" c cs]
  have a: "\<not> (c = CHR ''<'' \<and> CHR ''>'' \<in> set cs)" and b: "\<not> subseq ''<>'' cs"
    by blast+
  from a have "matchTag (c # cs) = None" by (auto simp: afterFirst_None)
  with Cons.IH [OF b] show ?case by (simp del: matchTag.simps)
qed

lemma stripEntities_id: "\<not> hasEntity s \<Longrightarrow> stripEntities s = s"
  by (induction s) (auto simp del: matchEntity.simps)

lemma stripEntities_length: "length (stripEntities s) \<le> length s"
  using stripEntities_subseq by (rule list_emb_length)

lemma stripEntities_shorter: "hasEntity s \<Longrightarrow> length (stripEntities s) < length s"
proof (induction s rule: stripEntities.induct)
  case 1
  then show ?case by simp
next
  case (2 c cs)
  show ?case
  proof (cases "matchEntity (c # cs)")
    case None
    with 2 show ?thesis by (simp del: matchEntity.simps)
  next
    case (Some rest)
    then have "length rest < length (c # cs)" by (rule matchEntity_shorter)
    with stripEntities_length [of rest] Some show ?thesis
      by (simp del: matchEntity.simps)
  qed
qed

lemma trim_length: "length (trim s) \<le> length s"
  using trim_subseq by (rule list_emb_length)

lemma trim_prefix: "prefix (trim s) (dropWhile isSpace s)"
proof -
  have "suffix (dropWhile isSpace (rev (dropWhile isSpace s))) (rev (dropWhile isSpace s))"
    by (rule suffix_dropWhile)
  then show ?thesis by (simp add: trim_def suffix_to_prefix)
qed

lemma trim_trim: "trim (trim s) = trim s"
proof -
  define d where "d = dropWhile isSpace s"
  define u where "u = trim s"
  have ru: "rev u = dropWhile isSpace (rev d)"
    by (simp add: u_def trim_def d_def)
  have 1: "dropWhile isSpace (rev u) = rev u"
    by (simp add: ru)
  have pre: "prefix u d"
    unfolding u_def d_def by (rule trim_prefix)
  have 2: "dropWhile isSpace u = u"
  proof (cases u)
    case Nil
    then show ?thesis by simp
  next
    case (Cons x xs)
    with pre obtain ys where d: "d = x # ys" by (auto simp: prefix_def)
    from d have "dropWhile isSpace s \<noteq> []" unfolding d_def by simp
    then have "\<not> isSpace (hd (dropWhile isSpace s))" by (rule hd_dropWhile)
    with d have "\<not> isSpace x" unfolding d_def by simp
    with Cons show ?thesis by simp
  qed
  have "trim u = u"
    by (simp add: trim_def [of u] 1 2)
  then show ?thesis by (simp add: u_def)
qed


lemma sanitizeText_again:
  "sanitizeText (Some (sanitizeText t)) = sanitizeText t \<longleftrightarrow> \<not> hasEntity (sanitizeText t)"
proof (cases "sanitizeText t = []")
  case True
  then show ?thesis by (simp add: sanitizeText_def)
next
  case False
  define r where "r = sanitizeText t"
  from False obtain s where t: "t = Some s" and s: "s \<noteq> []"
    and r: "r = trim (stripEntities (stripTags s))"
    unfolding r_def by (auto simp: sanitizeText_def split: option.splits if_splits)
  have tr: "trim r = r" unfolding r by (rule trim_trim)
  have "stripTags r = r"
    unfolding r_def by (intro stripTags_id sanitizeText_tagfree)
  then have again: "sanitizeText (Some r) = trim (stripEntities r)"
    using False by (simp add: sanitizeText_def r_def)
  show ?thesis
  proof (cases "hasEntity r")
    case True
    then have "length (stripEntities r) < length r" by (rule stripEntities_shorter)
    with trim_length [of "stripEntities r"] have "length (trim (stripEntities r)) < length r"
      by simp
    then have "sanitizeText (Some r) \<noteq> r" unfolding again by auto
    with True show ?thesis unfolding r_def by simp
  next
    case False
    then have "stripEntities r = r" by (rule stripEntities_id)
    with again tr have "sanitizeText (Some r) = r" by simp
    with False show ?thesis unfolding r_def by simp
  qed
qed

lemma matchEntity_Some_iff:
  "matchEntity s = Some r \<longleftrightarrow>
     (\<exists>e. s = [CHR ''&''] @ e @ [CHR '';''] @ r \<and> e \<noteq> [] \<and> (\<forall>c \<in> set e. isEntityChar c))"
proof
  assume m: "matchEntity s = Some r"
  then obtain c cs where s: "s = c # cs" by (cases s) auto
  from m s have c: "c = CHR ''&''" and e: "takeWhile isEntityChar cs \<noteq> []"
    and d: "dropWhile isEntityChar cs = CHR '';'' # r"
    by (auto split: if_splits list.splits)
  have "cs = takeWhile isEntityChar cs @ dropWhile isEntityChar cs" by simp
  with d have "s = [CHR ''&''] @ takeWhile isEntityChar cs @ [CHR '';''] @ r"
    using s c by simp
  moreover have "\<forall>c \<in> set (takeWhile isEntityChar cs). isEntityChar c"
    by (auto dest: set_takeWhileD)
  ultimately show "\<exists>e. s = [CHR ''&''] @ e @ [CHR '';''] @ r \<and> e \<noteq> []
      \<and> (\<forall>c \<in> set e. isEntityChar c)"
    using e by blast
next
  assume "\<exists>e. s = [CHR ''&''] @ e @ [CHR '';''] @ r \<and> e \<noteq> [] \<and> (\<forall>c \<in> set e. isEntityChar c)"
  then obtain e where s: "s = CHR ''&'' # e @ CHR '';'' # r" and e: "e \<noteq> []"
    and a: "\<forall>c \<in> set e. isEntityChar c" by auto
  have semi: "\<not> isEntityChar (CHR '';'')" by (simp add: isEntityChar_def)
  from a semi have "takeWhile isEntityChar (e @ CHR '';'' # r) = e"
    by (simp add: takeWhile_tail)
  moreover from a semi have "dropWhile isEntityChar (e @ CHR '';'' # r) = CHR '';'' # r"
    by (simp add: dropWhile_append3)
  ultimately show "matchEntity s = Some r" using s e by simp
qed

lemma hasEntity_iff:
  "hasEntity s \<longleftrightarrow>
     (\<exists>p e r. s = p @ [CHR ''&''] @ e @ [CHR '';''] @ r \<and> e \<noteq> [] \<and> (\<forall>c \<in> set e. isEntityChar c))"
proof (induction s)
  case Nil
  then show ?case by simp
next
  case (Cons c cs)
  have "hasEntity (c # cs) \<longleftrightarrow> (\<exists>r. matchEntity (c # cs) = Some r) \<or> hasEntity cs"
    by (simp del: matchEntity.simps)
  also have "\<dots> \<longleftrightarrow>
     (\<exists>r e. c # cs = [] @ [CHR ''&''] @ e @ [CHR '';''] @ r \<and> e \<noteq> [] \<and> (\<forall>c \<in> set e. isEntityChar c))
     \<or> (\<exists>p e r. cs = p @ [CHR ''&''] @ e @ [CHR '';''] @ r \<and> e \<noteq> [] \<and> (\<forall>c \<in> set e. isEntityChar c))"
    unfolding matchEntity_Some_iff Cons.IH by simp
  also have "\<dots> \<longleftrightarrow>
     (\<exists>p e r. c # cs = p @ [CHR ''&''] @ e @ [CHR '';''] @ r \<and> e \<noteq> [] \<and> (\<forall>c \<in> set e. isEntityChar c))"
    (is "?A \<or> ?B \<longleftrightarrow> ?C")
  proof
    assume "?A \<or> ?B"
    then show ?C
    proof
      assume ?A then show ?C by blast
    next
      assume ?B
      then obtain p e r where "cs = p @ [CHR ''&''] @ e @ [CHR '';''] @ r" "e \<noteq> []"
        "\<forall>c \<in> set e. isEntityChar c" by blast
      then have "c # cs = (c # p) @ [CHR ''&''] @ e @ [CHR '';''] @ r \<and> e \<noteq> []
        \<and> (\<forall>c \<in> set e. isEntityChar c)" by simp
      then show ?C by blast
    qed
  next
    assume ?C
    then obtain p e r where s: "c # cs = p @ [CHR ''&''] @ e @ [CHR '';''] @ r" and e: "e \<noteq> []"
        "\<forall>c \<in> set e. isEntityChar c" by blast
    show "?A \<or> ?B"
    proof (cases p)
      case Nil
      with s e show ?thesis by auto
    next
      case (Cons x xs)
      with s have "cs = xs @ [CHR ''&''] @ e @ [CHR '';''] @ r" by simp
      with e show ?thesis by blast
    qed
  qed
  finally show ?case .
qed

lemma sanitizeText_subseq: "subseq (sanitizeText (Some s)) s"
proof -
  have "subseq (trim (stripEntities (stripTags s))) (stripEntities (stripTags s))"
    by (rule trim_subseq)
  also have "subseq (stripEntities (stripTags s)) (stripTags s)"
    by (rule stripEntities_subseq)
  also have "subseq (stripTags s) s"
    by (rule stripTags_subseq)
  finally show ?thesis by (simp add: sanitizeText_def)
qed

text \<open>
  C5, amended. The output of sanitizeText never contains a \<open><\<close> with a \<open>>\<close> anywhere
  after it, so it holds no tag-shaped substring. Sanitizing the output again gives the
  same text exactly when the output holds no entity-shaped substring (an \<open>&\<close>, one or
  more characters of \<open>[#A-Za-z0-9_]\<close>, then \<open>;\<close>); this is the case for every input
  without \<open>&\<close>.
\<close>

theorem sanitizeText_output:
  "(\<forall>p m r. sanitizeText t \<noteq> p @ ''<'' @ m @ ''>'' @ r)
   \<and> (sanitizeText (Some (sanitizeText t)) = sanitizeText t \<longleftrightarrow>
        \<not> (\<exists>p e r. sanitizeText t = p @ ''&'' @ e @ '';'' @ r \<and> e \<noteq> []
               \<and> (\<forall>c \<in> set e. isEntityChar c)))
   \<and> (\<forall>s. t = Some s \<and> CHR ''&'' \<notin> set s \<longrightarrow>
          sanitizeText (Some (sanitizeText t)) = sanitizeText t)"
proof (intro conjI allI impI)
  fix p m r
  show "sanitizeText t \<noteq> p @ ''<'' @ m @ ''>'' @ r"
    using sanitizeText_tagfree [of t] subseq_pair_iff [of "CHR ''<''" "CHR ''>''" "sanitizeText t"]
    by blast
next
  show "sanitizeText (Some (sanitizeText t)) = sanitizeText t \<longleftrightarrow>
        \<not> (\<exists>p e r. sanitizeText t = p @ ''&'' @ e @ '';'' @ r \<and> e \<noteq> []
               \<and> (\<forall>c \<in> set e. isEntityChar c))"
    unfolding sanitizeText_again hasEntity_iff ..
next
  fix s assume "t = Some s \<and> CHR ''&'' \<notin> set s"
  then have t: "t = Some s" and s: "CHR ''&'' \<notin> set s" by simp_all
  from sanitizeText_subseq [of s] have "set (sanitizeText t) \<subseteq> set s"
    unfolding t by (rule subseq_set)
  with s have "CHR ''&'' \<notin> set (sanitizeText t)" by blast
  then have "\<not> hasEntity (sanitizeText t)"
    unfolding hasEntity_iff by auto
  then show "sanitizeText (Some (sanitizeText t)) = sanitizeText t"
    by (simp add: sanitizeText_again)
qed

theorem sanitizeText_output_witness:
  "sanitizeText (Some ''  <b>Hello</b> &amp; <i>world &lt;3  '') = ''Hello  world 3''
   \<and> sanitizeText (Some (sanitizeText (Some ''  <b>Hello</b> &amp; <i>world &lt;3  '')))
       = sanitizeText (Some ''  <b>Hello</b> &amp; <i>world &lt;3  '')
   \<and> sanitizeText (Some (sanitizeText (Some ''a < b and c > d''))) = sanitizeText (Some ''a < b and c > d'')"
proof -
  let ?t = "Some ''  <b>Hello</b> &amp; <i>world &lt;3  ''"
  have v: "sanitizeText ?t = ''Hello  world 3''" by code_simp
  have "\<not> hasEntity ''Hello  world 3''" by code_simp
  then have n: "\<not> (\<exists>p e r. sanitizeText ?t = p @ ''&'' @ e @ '';'' @ r \<and> e \<noteq> []
               \<and> (\<forall>c \<in> set e. isEntityChar c))"
    unfolding v hasEntity_iff by simp
  have a: "CHR ''&'' \<notin> set ''a < b and c > d''" by simp
  from sanitizeText_output [of ?t] n
  have 1: "sanitizeText (Some (sanitizeText ?t)) = sanitizeText ?t" by blast
  from sanitizeText_output [of "Some ''a < b and c > d''"] a
  have 2: "sanitizeText (Some (sanitizeText (Some ''a < b and c > d'')))
            = sanitizeText (Some ''a < b and c > d'')" by blast
  from v 1 2 show ?thesis by blast
qed

text \<open>
  C5 as stated fails: removing the entity in the middle of \<open>&&amp;amp;\<close> leaves
  \<open>&amp;\<close>, which a second pass removes.
\<close>

theorem sanitizeText_idempotent_counterexample:
  "sanitizeText (Some (sanitizeText (Some ''&&amp;amp;''))) \<noteq> sanitizeText (Some ''&&amp;amp;'')"
proof -
  have 1: "sanitizeText (Some ''&&amp;amp;'') = ''&amp;''" by code_simp
  have 2: "sanitizeText (Some ''&amp;'') = []" by code_simp
  show ?thesis unfolding 1 2 by simp
qed

subsection \<open>The cache refresh\<close>

text \<open>
  When the process runs in UTC, the refresh keeps exactly the rows created at most six
  hours (21600 seconds) before the call, and of a row created 7 hours ago and one
  created 1 hour ago only the second is left.
\<close>

lemma seconds_of:
  "(now - 21600000) div 1000 = now div 1000 - 21600"
  "(now - 25200000) div 1000 = now div 1000 - 25200"
  "(now - 3600000) div 1000 = now div 1000 - 3600" for now :: int
  using div_mult_self1 [of "1000 :: int" now "- 21600"]
    div_mult_self1 [of "1000 :: int" now "- 25200"]
    div_mult_self1 [of "1000 :: int" now "- 3600"]
  by simp_all

lemma refreshNewsCache_utc:
  "news_articles (refreshNewsCache 0 False now s)
     = filter (\<lambda>r. \<not> created_at r < now div 1000 - 6 * 3600) (news_articles s)"
  by (simp add: refreshNewsCache_def formatLocal_def seconds_of Let_def)

lemma refreshNewsCache_utc_scenario:
  "news_articles (refreshNewsCache 0 False now
      \<lparr> lastRefresh = l,
        news_articles = [r7\<lparr>created_at := (now - 7 * 3600000) div 1000\<rparr>,
                         r1\<lparr>created_at := (now - 1 * 3600000) div 1000\<rparr>] \<rparr>)
     = [r1\<lparr>created_at := (now - 1 * 3600000) div 1000\<rparr>]"
  by (simp add: refreshNewsCache_utc seconds_of)

text \<open>
  C9. The claim asks that exactly the rows older than six hours are deleted. The
  threshold is formatted on the local wall clock while \<open>created_at\<close> is a UTC reading:
  in a zone 8 hours ahead of UTC (\<open>utcOffset = 480\<close>) the row created 1 hour ago is
  deleted together with the row created 7 hours ago, and in a zone 5 hours behind UTC
  (\<open>utcOffset = -300\<close>) neither row is deleted.
\<close>

theorem refreshNewsCache_zone_skew:
  "news_articles (refreshNewsCache 480 False now
      \<lparr> lastRefresh = l,
        news_articles = [r7\<lparr>created_at := (now - 7 * 3600000) div 1000\<rparr>,
                         r1\<lparr>created_at := (now - 1 * 3600000) div 1000\<rparr>] \<rparr>)
     = []
   \<and> news_articles (refreshNewsCache (- 300) False now
      \<lparr> lastRefresh = l,
        news_articles = [r7\<lparr>created_at := (now - 7 * 3600000) div 1000\<rparr>,
                         r1\<lparr>created_at := (now - 1 * 3600000) div 1000\<rparr>] \<rparr>)
     = [r7\<lparr>created_at := (now - 7 * 3600000) div 1000\<rparr>,
        r1\<lparr>created_at := (now - 1 * 3600000) div 1000\<rparr>]"
  by (simp add: refreshNewsCache_def formatLocal_def seconds_of Let_def)

end
